theory Spec2Isabelle
  imports Complex_Main "HOL-Library.Multiset" "HOL-Library.Sublist"
    "HOL-Library.List_Lexorder" "HOL-Library.Char_ord"
begin

section \<open>Data model\<close>

text \<open>
  Identifiers are the values the backend puts into \<^verbatim>\<open>id\<close>; the code only ever compares
  them with \<^verbatim>\<open>===\<close> and tests them for truthiness. A folder id is nullable:
  \<^verbatim>\<open>null\<close> (here \<open>None\<close>) is the root folder.
\<close>

type_synonym ident = nat
type_synonym folder_id = "ident option"

text \<open>An entry \<^verbatim>\<open>{ id, name }\<close> of \<^verbatim>\<open>breadcrumbPath\<close>.\<close>

record crumb =
  cid :: folder_id
  cname :: string

text \<open>The literal \<^verbatim>\<open>{ id: null, name: 'Root' }\<close>.\<close>

definition rootCrumb :: crumb where
  "rootCrumb = \<lparr>cid = None, cname = ''Root''\<rparr>"

section \<open>Breadcrumb update of navigateToFolder\<close>

text \<open>
  \<^verbatim>\<open>Array.prototype.findIndex\<close>: the index of the first element satisfying the
  predicate, \<open>-1\<close> when there is none.
\<close>

fun findIndex :: "('a \<Rightarrow> bool) \<Rightarrow> 'a list \<Rightarrow> int" where
  "findIndex P [] = - 1"
| "findIndex P (x # xs) =
     (if P x then 0
      else (let r = findIndex P xs in if r = - 1 then - 1 else r + 1))"

text \<open>
  \<^verbatim>\<open>prevPath.slice(0, end)\<close>. A negative \<open>end\<close> counts from the end of the array, an
  \<open>end\<close> beyond the length stops at the length.
\<close>

definition slice0 :: "'a list \<Rightarrow> int \<Rightarrow> 'a list" where
  "slice0 xs e =
     (if e < 0 then take (nat (int (length xs) + e)) xs else take (nat e) xs)"

text \<open>
  The updater handed to \<^verbatim>\<open>setBreadcrumbPath\<close> in the branch \<^verbatim>\<open>folderId !== null\<close>:
  \<^verbatim>\<open>
  prevPath => {
      const existingIndex = prevPath.findIndex(f => f.id === folderId);
      if (existingIndex !== -1) {
          return prevPath.slice(0, existingIndex + 1); // Navigate up
      } else {
          return [...prevPath, { id: folderId, name: folderName }]; // Navigate down
      }
  }
  \<close>
\<close>

definition updatePath :: "folder_id \<Rightarrow> string \<Rightarrow> crumb list \<Rightarrow> crumb list" where
  "updatePath folderId folderName prevPath =
     (let existingIndex = findIndex (\<lambda>f. cid f = folderId) prevPath
      in if existingIndex \<noteq> - 1 then slice0 prevPath (existingIndex + 1)
         else prevPath @ [\<lparr>cid = folderId, cname = folderName\<rparr>])"

text \<open>
  The breadcrumb path that \<^verbatim>\<open>navigateToFolder(folderId, folderName)\<close> sets, as a
  function of the path before:
  \<^verbatim>\<open>
  if (folderId === null) {
      setBreadcrumbPath([{ id: null, name: 'Root' }]);
  } else {
      setBreadcrumbPath(prevPath => ...);
  }
  \<close>
\<close>

definition navigatePath :: "folder_id \<Rightarrow> string \<Rightarrow> crumb list \<Rightarrow> crumb list" where
  "navigatePath folderId folderName prevPath =
     (if folderId = None then [rootCrumb]
      else updatePath folderId folderName prevPath)"

text \<open>
  The breadcrumb paths that arise from the initial path
  \<^verbatim>\<open>useState([{ id: null, name: 'Root' }])\<close> by navigation.
\<close>

inductive reachablePath :: "crumb list \<Rightarrow> bool" where
  initialPath: "reachablePath [rootCrumb]"
| navigated: "reachablePath p \<Longrightarrow> reachablePath (navigatePath folderId folderName p)"


section \<open>Items and the ordering of the listing\<close>

text \<open>
  \<^verbatim>\<open>fetchItems\<close> tags every record of the folder response with \<^verbatim>\<open>type: 'folder'\<close>
  and every record of the file response with \<^verbatim>\<open>type: 'file'\<close>; whatever
  \<^verbatim>\<open>type\<close> the backend sent is overwritten by the spread. A record of a response is
  taken to have an id, a string name and an optional size, as the backend's item has.
\<close>

datatype item_type = Folder | File

record raw_item =
  rid :: ident
  rname :: string
  rsize :: "nat option"

record item =
  iid :: ident
  iname :: string
  isize :: "nat option"
  itype :: item_type

text \<open>\<^verbatim>\<open>f => ({ ...f, type: t })\<close>\<close>

definition tag :: "item_type \<Rightarrow> raw_item \<Rightarrow> item" where
  "tag t f = \<lparr>iid = rid f, iname = rname f, isize = rsize f, itype = t\<rparr>"

text \<open>
  The body \<^verbatim>\<open>data\<close> of a response, as far as the code inspects it: an array, an
  object whose \<^verbatim>\<open>folders\<close> property is an array, or anything else.
\<close>

datatype payload = JArray "raw_item list" | JFolders "raw_item list" | JOther

fun fetchedFolders :: "payload \<Rightarrow> item list" where
  "fetchedFolders (JArray fs) = map (tag Folder) fs"
| "fetchedFolders (JFolders fs) = map (tag Folder) fs"
| "fetchedFolders JOther = []"

fun fetchedFiles :: "payload \<Rightarrow> item list" where
  "fetchedFiles (JArray fs) = map (tag File) fs"
| "fetchedFiles (JFolders fs) = []"
| "fetchedFiles JOther = []"

text \<open>
  The comparison function handed to \<^verbatim>\<open>combinedItems.sort\<close>. The browser's
  \<^verbatim>\<open>String.prototype.localeCompare\<close> is a parameter: it returns a negative number,
  zero or a positive number.
  \<^verbatim>\<open>
  (a, b) => {
      if (a.type === 'folder' && b.type === 'file') return -1;
      if (a.type === 'file' && b.type === 'folder') return 1;
      return a.name.localeCompare(b.name);
  }
  \<close>
\<close>

definition compareItems :: "(string \<Rightarrow> string \<Rightarrow> int) \<Rightarrow> item \<Rightarrow> item \<Rightarrow> int" where
  "compareItems localeCompare a b =
     (if itype a = Folder \<and> itype b = File then - 1
      else if itype a = File \<and> itype b = Folder then 1
      else localeCompare (iname a) (iname b))"

text \<open>
  \<^verbatim>\<open>Array.prototype.sort(comparefn)\<close>. ECMAScript leaves the algorithm to the engine
  and fixes the result for a consistent comparison function: the elements in ascending
  order of \<open>comparefn\<close>, elements that compare equal in their original order. A stable
  insertion sort computes that result; for an inconsistent comparison function the
  order is implementation-defined and this definition is one admissible choice.
\<close>

fun insertBy :: "('a \<Rightarrow> 'a \<Rightarrow> int) \<Rightarrow> 'a \<Rightarrow> 'a list \<Rightarrow> 'a list" where
  "insertBy comparefn x [] = [x]"
| "insertBy comparefn x (y # ys) =
     (if comparefn x y \<le> 0 then x # y # ys else y # insertBy comparefn x ys)"

fun sortBy :: "('a \<Rightarrow> 'a \<Rightarrow> int) \<Rightarrow> 'a list \<Rightarrow> 'a list" where
  "sortBy comparefn [] = []"
| "sortBy comparefn (x # xs) = insertBy comparefn x (sortBy comparefn xs)"

text \<open>
  What ECMAScript requires of \<^verbatim>\<open>localeCompare\<close>: a total ordering of all strings.
  A string equals itself, swapping the arguments swaps the sign, and the ordering is
  transitive.
\<close>

definition consistent :: "('a \<Rightarrow> 'a \<Rightarrow> int) \<Rightarrow> bool" where
  "consistent comparefn \<longleftrightarrow>
     (\<forall>a. comparefn a a = 0) \<and>
     (\<forall>a b. (comparefn a b < 0) = (0 < comparefn b a)) \<and>
     (\<forall>a b c. comparefn a b \<le> 0 \<and> comparefn b c \<le> 0 \<longrightarrow> comparefn a c \<le> 0)"

text \<open>
  A comparison by code units, the ordering \<^verbatim>\<open>localeCompare\<close> has in a locale without
  tailoring for plain ASCII letters of one case; it serves as the concrete instance.
\<close>

definition codeUnitCompare :: "string \<Rightarrow> string \<Rightarrow> int" where
  "codeUnitCompare a b = (if a < b then - 1 else if a = b then 0 else 1)"

section \<open>Application state\<close>

record account =
  uid :: ident
  uname :: string
  uemail :: string

text \<open>The notifications of react-toastify, by level.\<close>

datatype toast = ToastSuccess string | ToastError string | ToastWarn string | ToastInfo string

datatype endpoint = Folders | Files

text \<open>The HTTP requests the client dispatches through axios.\<close>

datatype request =
    GetProfile
  | PostLogin string string
  | PostRegister string string string
  | PostLogout
  | GetFolders folder_id
  | GetFiles folder_id
  | PostUpload string folder_id
  | PostFolder string folder_id
  | Delete endpoint ident
  | PutFile ident string

text \<open>
  A rejected request, as the handlers read it: \<^verbatim>\<open>err.response?.status\<close> and
  \<^verbatim>\<open>err.response?.data?.message\<close>, each possibly \<^verbatim>\<open>undefined\<close>.
\<close>

datatype failure = Failure (status: "nat option") (message: "string option")

datatype 'a reply = Resolved 'a | Rejected failure

text \<open>
  The state of the component \<^verbatim>\<open>App\<close>: its \<^verbatim>\<open>useState\<close> cells and its two refs,
  and the two logs of what it has done to the outside: the requests dispatched and the
  toasts shown, oldest first. A selected \<^verbatim>\<open>File\<close> is represented by its name. The
  hidden input of \<^verbatim>\<open>updateFileInputRef\<close> carries the handler
  \<^verbatim>\<open>handleActualFileUpdate\<close> of the render that created it, and with it that render's
  \<^verbatim>\<open>currentFolderId\<close>: \<open>Some f\<close> is an input whose handler closed over the folder
  \<open>f\<close>, \<open>None\<close> is \<^verbatim>\<open>null\<close>.
\<close>

record app =
  user :: "account option"
  isAuthenticating :: bool
  email :: string
  password :: string
  name :: string
  isLogin :: bool
  items :: "item list"
  fileToUpload :: "string option"
  folderName :: string
  isLoading :: bool
  currentFolderId :: folder_id
  breadcrumbPath :: "crumb list"
  updateFileInputRef :: "folder_id option"
  fileToUpdateIdRef :: "ident option"
  requests :: "request list"
  toasts :: "toast list"

definition initialState :: app where
  "initialState =
     \<lparr>user = None, isAuthenticating = True, email = [], password = [], name = [],
      isLogin = True, items = [], fileToUpload = None, folderName = [],
      isLoading = False, currentFolderId = None, breadcrumbPath = [rootCrumb],
      updateFileInputRef = None, fileToUpdateIdRef = None, requests = [], toasts = []\<rparr>"

definition send :: "request \<Rightarrow> app \<Rightarrow> app" where
  "send r s = s\<lparr>requests := requests s @ [r]\<rparr>"

definition notify :: "toast \<Rightarrow> app \<Rightarrow> app" where
  "notify t s = s\<lparr>toasts := toasts s @ [t]\<rparr>"

text \<open>\<^verbatim>\<open>m || fallback\<close> for an optional string: the empty string is falsy too.\<close>

definition orElse :: "string option \<Rightarrow> string \<Rightarrow> string" where
  "orElse m fallback = (case m of None \<Rightarrow> fallback | Some t \<Rightarrow> if t = [] then fallback else t)"

section \<open>Session handlers\<close>

text \<open>
  The branch \<^verbatim>\<open>else if (!user)\<close> of the effect with dependencies
  \<^verbatim>\<open>[user, isAuthenticating]\<close>:
  \<^verbatim>\<open>
  setItems([]); // Clear items on logout
  setBreadcrumbPath([{ id: null, name: 'Root' }]); // Reset breadcrumbs
  setCurrentFolderId(null); // Reset current folder
  \<close>
\<close>

definition userCleanup :: "app \<Rightarrow> app" where
  "userCleanup s = s\<lparr>items := [], breadcrumbPath := [rootCrumb], currentFolderId := None\<rparr>"

text \<open>
  \<^verbatim>\<open>handleLogout(showToast)\<close>, with the reply of the server to the logout request.
  \<^verbatim>\<open>setUser(null)\<close> in the \<^verbatim>\<open>finally\<close> block changes \<^verbatim>\<open>user\<close> exactly when a user
  was set; React then runs the effect again, which takes its cleanup branch.
\<close>

definition handleLogout :: "unit reply \<Rightarrow> bool \<Rightarrow> app \<Rightarrow> app" where
  "handleLogout logoutReply showToast s =
     (let s1 = send PostLogout s;
          s2 = (case logoutReply of
                  Resolved _ \<Rightarrow>
                    if showToast then notify (ToastSuccess ''Logged out successfully!'') s1 else s1
                | Rejected err \<Rightarrow>
                    if showToast
                    then notify (ToastError ''Logout failed on server, logged out locally.'') s1
                    else s1);
          s3 = s2\<lparr>user := None\<rparr>
      in if user s2 \<noteq> None then userCleanup s3 else s3)"

section \<open>Content lister and navigation\<close>

text \<open>
  \<^verbatim>\<open>fetchItems(folderId)\<close> and \<^verbatim>\<open>navigateToFolder(folderId, folderName)\<close> call each
  other: a fetch of a folder other than the root that fails with status 404 navigates
  to the root, and every navigation fetches. The first list holds the replies of the
  server to the successive fetches (both GET requests of one fetch settle together, as
  \<^verbatim>\<open>Promise.all\<close> does); a fetch that finds the list empty never gets its reply and
  stays at its \<^verbatim>\<open>await\<close>. A handler runs to its end before the next event.
\<close>

fun fetchItems ::
    "(string \<Rightarrow> string \<Rightarrow> int) \<Rightarrow> (payload \<times> payload) reply list \<Rightarrow> unit reply \<Rightarrow>
       folder_id \<Rightarrow> app \<Rightarrow> app"
  and navigateToFolder ::
    "(string \<Rightarrow> string \<Rightarrow> int) \<Rightarrow> (payload \<times> payload) reply list \<Rightarrow> unit reply \<Rightarrow>
       folder_id \<Rightarrow> string \<Rightarrow> app \<Rightarrow> app" where
  "fetchItems localeCompare [] logoutReply folderId s =
     send (GetFiles folderId) (send (GetFolders folderId) (s\<lparr>isLoading := True\<rparr>))"
| "fetchItems localeCompare (r # rs) logoutReply folderId s =
     (let s1 = send (GetFiles folderId) (send (GetFolders folderId) (s\<lparr>isLoading := True\<rparr>))
      in case r of
           Resolved (folderData, fileData) \<Rightarrow>
             (let combinedItems = fetchedFolders folderData @ fetchedFiles fileData
              in s1\<lparr>items := sortBy (compareItems localeCompare) combinedItems,
                     isLoading := False\<rparr>)
         | Rejected err \<Rightarrow>
             (let s2 = notify (ToastError ''Failed to fetch items.'') s1;
                  s3 = (if status err = Some 401
                        then notify (ToastInfo ''Session expired. Please log in again.'')
                               (handleLogout logoutReply False s2)
                        else s2);
                  s4 = (if status err = Some 404 \<and> folderId \<noteq> None
                        then navigateToFolder localeCompare rs logoutReply None ''Root''
                               (notify (ToastWarn ''Folder not found, returning to root.'') s3)
                        else s3)
              in s4\<lparr>isLoading := False\<rparr>))"
| "navigateToFolder localeCompare rs logoutReply folderId folderName' s =
     fetchItems localeCompare rs logoutReply folderId
       (s\<lparr>currentFolderId := folderId,
          breadcrumbPath := navigatePath folderId folderName' (breadcrumbPath s)\<rparr>)"


text \<open>
  The effect with dependencies \<^verbatim>\<open>[user, isAuthenticating]\<close>, run after a render in
  which one of the two has changed:
  \<^verbatim>\<open>
  if (user && !isLoading && !isAuthenticating) {
      if (currentFolderId === null && items.length === 0) fetchItems(null);
  } else if (!user) { ...cleanup... }
  \<close>
\<close>

definition userEffect ::
    "(string \<Rightarrow> string \<Rightarrow> int) \<Rightarrow> (payload \<times> payload) reply list \<Rightarrow> unit reply \<Rightarrow> app \<Rightarrow> app" where
  "userEffect localeCompare rs logoutReply s =
     (if user s \<noteq> None \<and> \<not> isLoading s \<and> \<not> isAuthenticating s
      then (if currentFolderId s = None \<and> items s = []
            then fetchItems localeCompare rs logoutReply None s else s)
      else if user s = None then userCleanup s else s)"

text \<open>
  \<^verbatim>\<open>checkAuth\<close>, started once by the mount effect, with the reply to the profile
  request (\<open>None\<close> for a falsy body). \<^verbatim>\<open>isAuthenticating\<close> goes from true to false, so
  the effect above runs after it.
\<close>

definition checkAuth ::
    "(string \<Rightarrow> string \<Rightarrow> int) \<Rightarrow> account option reply \<Rightarrow> (payload \<times> payload) reply list \<Rightarrow>
       unit reply \<Rightarrow> app \<Rightarrow> app" where
  "checkAuth localeCompare profileReply rs logoutReply s =
     (let s1 = send GetProfile (s\<lparr>isAuthenticating := True\<rparr>);
          s2 = (case profileReply of
                  Resolved data \<Rightarrow> s1\<lparr>user := data\<rparr>
                | Rejected err \<Rightarrow> s1\<lparr>user := None\<rparr>)
      in userEffect localeCompare rs logoutReply (s2\<lparr>isAuthenticating := False\<rparr>))"

text \<open>
  \<^verbatim>\<open>handleAuth\<close>, with the reply to the login or register request: the
  \<^verbatim>\<open>userData\<close> extracted from the body (\<open>None\<close> when falsy). User data without a
  truthy \<^verbatim>\<open>id\<close> throws inside the \<^verbatim>\<open>try\<close>, an error without \<^verbatim>\<open>response\<close>. The
  updates after the \<^verbatim>\<open>await\<close> are rendered together, then the effect runs because
  \<^verbatim>\<open>user\<close> has changed.
\<close>

definition handleAuth ::
    "(string \<Rightarrow> string \<Rightarrow> int) \<Rightarrow> account option reply \<Rightarrow> (payload \<times> payload) reply list \<Rightarrow>
       unit reply \<Rightarrow> app \<Rightarrow> app" where
  "handleAuth localeCompare authReply rs logoutReply s =
     (let s1 = send (if isLogin s then PostLogin (email s) (password s)
                     else PostRegister (name s) (email s) (password s))
                 (s\<lparr>isLoading := True\<rparr>)
      in case authReply of
           Resolved userData \<Rightarrow>
             (case userData of
                None \<Rightarrow> (notify (ToastError ''Authentication failed'') s1)\<lparr>isLoading := False\<rparr>
              | Some u \<Rightarrow>
                  if uid u = 0
                  then (notify (ToastError ''Authentication failed'') s1)\<lparr>isLoading := False\<rparr>
                  else (let s2 = notify (ToastSuccess (if isLogin s then ''Login successful!''
                                                      else ''Registration successful!''))
                                   (s1\<lparr>user := Some u\<rparr>)
                        in userEffect localeCompare rs logoutReply
                             (s2\<lparr>email := [], password := [], name := [], isLoading := False\<rparr>)))
         | Rejected err \<Rightarrow>
             (notify (ToastError (orElse (message err) ''Authentication failed'')) s1)
               \<lparr>isLoading := False\<rparr>)"

section \<open>Mutation handlers\<close>

text \<open>A name between single quotes, as the messages of the toasts print it.\<close>

definition quoted :: "string \<Rightarrow> string" where
  "quoted t = [CHR 0x27] @ t @ [CHR 0x27]"

text \<open>
  \<^verbatim>\<open>handleFileUpload\<close>, with the reply to the upload request. After a successful
  upload the handler evaluates \<^verbatim>\<open>fetchItems(targetFolderIdnull)\<close>. No binding
  \<^verbatim>\<open>targetFolderIdnull\<close> exists, so evaluating the argument throws a ReferenceError
  before \<^verbatim>\<open>fetchItems\<close> is entered; the \<^verbatim>\<open>catch\<close> block of the same \<^verbatim>\<open>try\<close> receives
  it, an error without \<^verbatim>\<open>response\<close>.
\<close>

definition handleFileUpload :: "unit reply \<Rightarrow> app \<Rightarrow> app" where
  "handleFileUpload uploadReply s =
     (case fileToUpload s of
        None \<Rightarrow> notify (ToastWarn ''Please select a file.'') s
      | Some file \<Rightarrow>
          if isLoading s then s
          else (let targetFolderId = currentFolderId s;
                    s1 = send (PostUpload file targetFolderId) (s\<lparr>isLoading := True\<rparr>)
                in case uploadReply of
                     Resolved _ \<Rightarrow>
                       (let s2 = notify (ToastSuccess (''File '' @ quoted file @ '' uploaded.'')) s1;
                            s3 = s2\<lparr>fileToUpload := None\<rparr>
                        in (notify (ToastError ''File upload failed.'') s3)\<lparr>isLoading := False\<rparr>)
                   | Rejected err \<Rightarrow>
                       (notify (ToastError (orElse (message err) ''File upload failed.'')) s1)
                         \<lparr>isLoading := False\<rparr>))"

text \<open>
  \<^verbatim>\<open>createFolder\<close>, with the reply to the create request. The browser's
  \<^verbatim>\<open>String.prototype.trim\<close> is the parameter \<open>trim\<close>: which characters it strips
  (the white space and line terminators of Unicode) is not fixed here.
\<close>

definition createFolder ::
    "(string \<Rightarrow> string \<Rightarrow> int) \<Rightarrow> (string \<Rightarrow> string) \<Rightarrow> unit reply \<Rightarrow>
       (payload \<times> payload) reply list \<Rightarrow> unit reply \<Rightarrow> app \<Rightarrow> app" where
  "createFolder localeCompare trim createReply rs logoutReply s =
     (if trim (folderName s) = [] then notify (ToastWarn ''Folder name cannot be empty.'') s
      else if isLoading s then s
      else (let targetParentId = currentFolderId s;
                s1 = send (PostFolder (trim (folderName s)) targetParentId)
                       (s\<lparr>isLoading := True\<rparr>)
            in case createReply of
                 Resolved _ \<Rightarrow>
                   (let s2 = notify (ToastSuccess
                                      (''Folder '' @ quoted (trim (folderName s)) @ '' created.'')) s1
                    in fetchItems localeCompare rs logoutReply targetParentId
                         (s2\<lparr>folderName := []\<rparr>))
               | Rejected err \<Rightarrow>
                   (notify (ToastError (orElse (message err) ''Failed to create folder.'')) s1)
                     \<lparr>isLoading := False\<rparr>))"

text \<open>
  \<^verbatim>\<open>handleDelete(item)\<close>. \<open>confirmed\<close> is the answer of the user to
  \<^verbatim>\<open>window.confirm(confirmationMessage)\<close>; the dialog is opened only when the handler
  got past \<^verbatim>\<open>if (isLoading) return\<close>.
\<close>

definition handleDelete ::
    "(string \<Rightarrow> string \<Rightarrow> int) \<Rightarrow> bool \<Rightarrow> unit reply \<Rightarrow> (payload \<times> payload) reply list \<Rightarrow>
       unit reply \<Rightarrow> item \<Rightarrow> app \<Rightarrow> app" where
  "handleDelete localeCompare confirmed deleteReply rs logoutReply it s =
     (if isLoading s then s
      else (let isFolder = (itype it = Folder);
                endpoint = (if isFolder then Folders else Files);
                itemTypeName = (if isFolder then ''Folder'' else ''File'')
            in if confirmed
               then (let folderToRefetch = currentFolderId s;
                         s1 = send (Delete endpoint (iid it)) (s\<lparr>isLoading := True\<rparr>)
                     in case deleteReply of
                          Resolved _ \<Rightarrow>
                            fetchItems localeCompare rs logoutReply folderToRefetch
                              (notify (ToastSuccess
                                         (itemTypeName @ '' '' @ quoted (iname it) @ '' deleted.'')) s1)
                        | Rejected err \<Rightarrow>
                            (notify (ToastError (orElse (message err)
                                       (''Failed to delete '' @ itemTypeName @ ''.''))) s1)
                              \<lparr>isLoading := False\<rparr>)
               else s))"

text \<open>
  \<^verbatim>\<open>cleanupFileInput\<close> removes the hidden input, if there is one, and clears the ref.
\<close>

definition cleanupFileInput :: "app \<Rightarrow> app" where
  "cleanupFileInput s = s\<lparr>updateFileInputRef := None\<rparr>"

text \<open>
  \<^verbatim>\<open>triggerUpdateFile(fileId)\<close>: a missing input is created with the handler of this
  render; an input left from an earlier call is used again as it is.
\<close>

definition triggerUpdateFile :: "ident \<Rightarrow> app \<Rightarrow> app" where
  "triggerUpdateFile fileId s =
     (if isLoading s then s
      else (let s1 = s\<lparr>fileToUpdateIdRef := Some fileId\<rparr>
            in case updateFileInputRef s1 of
                 None \<Rightarrow> s1\<lparr>updateFileInputRef := Some (currentFolderId s)\<rparr>
               | Some closedFolderId \<Rightarrow> s1))"

text \<open>
  \<^verbatim>\<open>handleActualFileUpdate(event)\<close>, the \<^verbatim>\<open>onchange\<close> handler of the hidden input:
  \<open>newFile\<close> is \<^verbatim>\<open>event.target.files[0]\<close>, \<open>confirmed\<close> the answer to the replace
  dialog, \<open>putReply\<close> the reply to the PUT request with \<^verbatim>\<open>res.data?.message\<close>. Without
  a hidden input the event cannot occur.
\<close>

definition handleActualFileUpdate ::
    "(string \<Rightarrow> string \<Rightarrow> int) \<Rightarrow> string option \<Rightarrow> bool \<Rightarrow> string option reply \<Rightarrow>
       (payload \<times> payload) reply list \<Rightarrow> unit reply \<Rightarrow> app \<Rightarrow> app" where
  "handleActualFileUpdate localeCompare newFile confirmed putReply rs logoutReply s =
     (case updateFileInputRef s of
        None \<Rightarrow> s
      | Some closedFolderId \<Rightarrow>
          (case newFile of
             None \<Rightarrow> cleanupFileInput s
           | Some file \<Rightarrow>
               (case fileToUpdateIdRef s of
                  None \<Rightarrow> cleanupFileInput s
                | Some fileIdToUpdate \<Rightarrow>
                    if fileIdToUpdate = 0 then cleanupFileInput s
                    else if \<not> confirmed then cleanupFileInput s
                    else (let folderToRefetch = closedFolderId;
                              s1 = send (PutFile fileIdToUpdate file) (s\<lparr>isLoading := True\<rparr>);
                              s2 = (case putReply of
                                      Resolved msg \<Rightarrow>
                                        fetchItems localeCompare rs logoutReply folderToRefetch
                                          (notify (ToastSuccess
                                             (orElse msg ''File updated successfully!'')) s1)
                                    | Rejected err \<Rightarrow>
                                        (notify (ToastError
                                           (orElse (message err) ''Failed to update file.'')) s1)
                                          \<lparr>isLoading := False\<rparr>)
                          in (cleanupFileInput s2)\<lparr>fileToUpdateIdRef := None\<rparr>))))"

section \<open>Reachable states\<close>

text \<open>
  The states of the component: the initial state of the \<^verbatim>\<open>useState\<close> cells, the mount,
  and then any sequence of events with any replies of the server. The guards of the
  rendered controls (the logged-in view only for a user, disabled buttons while loading)
  are left out, which only adds states.
\<close>

inductive reachable :: "app \<Rightarrow> bool" where
  initial: "reachable initialState"
| mounted: "reachable (checkAuth localeCompare profileReply rs logoutReply initialState)"
| authenticated: "reachable s \<Longrightarrow> reachable (handleAuth localeCompare authReply rs logoutReply s)"
| loggedOut: "reachable s \<Longrightarrow> reachable (handleLogout logoutReply showToast s)"
| navigatedTo:
    "reachable s \<Longrightarrow> reachable (navigateToFolder localeCompare rs logoutReply folderId folderName' s)"
| fetched: "reachable s \<Longrightarrow> reachable (fetchItems localeCompare rs logoutReply folderId s)"
| uploaded: "reachable s \<Longrightarrow> reachable (handleFileUpload uploadReply s)"
| created:
    "reachable s \<Longrightarrow> reachable (createFolder localeCompare trim createReply rs logoutReply s)"
| deleted:
    "reachable s \<Longrightarrow>
       reachable (handleDelete localeCompare confirmed deleteReply rs logoutReply it s)"
| triggered: "reachable s \<Longrightarrow> reachable (triggerUpdateFile fileId s)"
| replaced:
    "reachable s \<Longrightarrow>
       reachable (handleActualFileUpdate localeCompare newFile confirmed putReply rs logoutReply s)"
| edited:
    "reachable s \<Longrightarrow>
       reachable (s\<lparr>email := e, password := p, name := n, isLogin := l,
                    fileToUpload := f, folderName := d\<rparr>)"

section \<open>Formatting of sizes\<close>













section \<open>The path invariant\<close>

text \<open>The breadcrumb path is not empty and ends at the folder that is open.\<close>

definition pathInv :: "app \<Rightarrow> bool" where
  "pathInv s \<longleftrightarrow> breadcrumbPath s \<noteq> [] \<and> cid (last (breadcrumbPath s)) = currentFolderId s"

section \<open>Sample data\<close>


definition sampleFolders :: payload where
  "sampleFolders = JArray [\<lparr>rid = 1, rname = ''music'', rsize = None\<rparr>,
                           \<lparr>rid = 2, rname = ''docs'', rsize = None\<rparr>]"

definition sampleFiles :: payload where
  "sampleFiles = JArray [\<lparr>rid = 3, rname = ''notes.txt'', rsize = Some 120\<rparr>,
                         \<lparr>rid = 4, rname = ''a.png'', rsize = Some 2048\<rparr>]"

definition sampleUser :: account where
  "sampleUser = \<lparr>uid = 7, uname = ''Ada'', uemail = ''ada@example.org''\<rparr>"

definition sampleItem :: item where
  "sampleItem = \<lparr>iid = 3, iname = ''notes.txt'', isize = Some 120, itype = File\<rparr>"

text \<open>A session at the folder 5 below the root, with one listed file and a selected upload.\<close>

definition sampleState :: app where
  "sampleState =
     initialState\<lparr>user := Some sampleUser, isAuthenticating := False, items := [sampleItem],
       fileToUpload := Some ''report.pdf'', folderName := ''drafts'',
       currentFolderId := Some 5,
       breadcrumbPath := [rootCrumb, \<lparr>cid = Some 5, cname = ''work''\<rparr>]\<rparr>"



definition notFound :: failure where
  "notFound = Failure (Some 404) (Some ''Folder not found'')"

section \<open>Properties of the breadcrumb update\<close>

lemma findIndex_range: "- 1 \<le> findIndex P xs \<and> findIndex P xs < int (length xs)"
  by (induction xs) (auto simp: Let_def)

lemma findIndex_none: "findIndex P xs = - 1 \<longleftrightarrow> (\<forall>x \<in> set xs. \<not> P x)"
proof (induction xs)
  case Nil
  show ?case by simp
next
  case (Cons x xs)
  have "- 1 \<le> findIndex P xs" using findIndex_range by blast
  then have "findIndex P xs + 1 \<noteq> - 1" by arith
  with Cons show ?case by (auto simp: Let_def)
qed

lemma findIndex_first:
  "findIndex P xs \<noteq> - 1 \<Longrightarrow>
     P (xs ! nat (findIndex P xs)) \<and> (\<forall>j < nat (findIndex P xs). \<not> P (xs ! j))"
proof (induction xs)
  case Nil
  then show ?case by simp
next
  case (Cons x xs)
  show ?case
  proof (cases "P x")
    case True
    then show ?thesis by simp
  next
    case False
    with Cons.prems have ne: "findIndex P xs \<noteq> - 1"
      by (auto simp: Let_def split: if_splits)
    have lo: "0 \<le> findIndex P xs"
      using findIndex_range [of P xs] ne by arith
    have eq: "nat (findIndex P (x # xs)) = Suc (nat (findIndex P xs))"
      using False ne lo by (simp add: Let_def nat_add_distrib)
    from Cons.IH [OF ne] have ih: "P (xs ! nat (findIndex P xs))"
      and ihj: "\<forall>j < nat (findIndex P xs). \<not> P (xs ! j)" by blast+
    show ?thesis
      unfolding eq using ih ihj False by (auto simp: nth_Cons split: nat.splits)
  qed
qed

lemma last_take_Suc: "k < length p \<Longrightarrow> last (take (Suc k) p) = p ! k"
  by (simp add: take_Suc_conv_app_nth)

lemma updatePath_found:
  assumes "folderId \<in> cid ` set p"
  shows "\<exists>k < length p. updatePath folderId n p = take (Suc k) p \<and> cid (p ! k) = folderId \<and>
           (\<forall>j < k. cid (p ! j) \<noteq> folderId)"
proof -
  let ?i = "findIndex (\<lambda>f. cid f = folderId) p"
  from assms have ne: "?i \<noteq> - 1" by (auto simp: findIndex_none)
  have rng: "0 \<le> ?i \<and> ?i < int (length p)"
    using findIndex_range [of "\<lambda>f. cid f = folderId" p] ne by arith
  have "updatePath folderId n p = take (Suc (nat ?i)) p"
    using ne rng by (simp add: updatePath_def slice0_def Let_def nat_add_distrib)
  moreover have "nat ?i < length p" using rng by linarith
  ultimately show ?thesis using findIndex_first [OF ne] by blast
qed

lemma updatePath_fresh:
  assumes "folderId \<notin> cid ` set p"
  shows "updatePath folderId n p = p @ [\<lparr>cid = folderId, cname = n\<rparr>]"
proof -
  from assms have "findIndex (\<lambda>f. cid f = folderId) p = - 1"
    by (auto simp: findIndex_none)
  then show ?thesis by (simp add: updatePath_def)
qed


text \<open>
  \<^verbatim>\<open>navigateToFolder\<close> stores that path and the folder id; they stand in the state when
  the fetch it starts succeeds or is still awaited.
\<close>

lemma navigateToFolder_stores:
  assumes "rs = [] \<or> (\<exists>d rs'. rs = Resolved d # rs')"
  shows "breadcrumbPath (navigateToFolder lc rs lo folderId n s) =
           navigatePath folderId n (breadcrumbPath s) \<and>
         currentFolderId (navigateToFolder lc rs lo folderId n s) = folderId"
  using assms
proof (elim disjE exE)
  assume "rs = []"
  then show ?thesis by (simp add: send_def)
next
  fix d rs'
  assume "rs = Resolved d # rs'"
  then show ?thesis by (cases d) (simp add: send_def)
qed

text \<open>Every path reached by navigation starts with the root entry.\<close>

lemma reachablePath_head: "reachablePath p \<Longrightarrow> p \<noteq> [] \<and> hd p = rootCrumb"
proof (induction rule: reachablePath.induct)
  case initialPath
  show ?case by simp
next
  case (navigated p folderId n)
  show ?case
  proof (cases "folderId = None")
    case True
    then show ?thesis by (simp add: navigatePath_def)
  next
    case False
    show ?thesis
    proof (cases "folderId \<in> cid ` set p")
      case True
      then obtain k where "updatePath folderId n p = take (Suc k) p"
        using updatePath_found [of folderId p n] by blast
      with navigated.IH False show ?thesis
        by (cases p) (simp_all add: navigatePath_def)
    next
      case notin: False
      with navigated.IH False show ?thesis
        by (simp add: navigatePath_def updatePath_fresh)
    qed
  qed
qed

lemma navigatePath_distinct:
  assumes "distinct (map cid p)"
  shows "distinct (map cid (navigatePath folderId n p))"
proof (cases "folderId = None")
  case True
  then show ?thesis by (simp add: navigatePath_def)
next
  case False
  show ?thesis
  proof (cases "folderId \<in> cid ` set p")
    case True
    then obtain k where "updatePath folderId n p = take (Suc k) p"
      using updatePath_found [of folderId p n] by blast
    with assms False show ?thesis
      by (simp add: navigatePath_def take_map [symmetric] distinct_take)
  next
    case True': False
    with assms False show ?thesis
      by (simp add: navigatePath_def updatePath_fresh)
  qed
qed

text \<open>
  Claim C9. In every breadcrumb path reached from the root-only path by any sequence of
  navigations, no two entries have the same id.
\<close>

theorem reachablePath_unique_ids: "reachablePath p \<Longrightarrow> distinct (map cid p)"
  by (induction rule: reachablePath.induct) (simp_all add: navigatePath_distinct)

theorem reachablePath_unique_ids_witness:
  "reachablePath [rootCrumb, \<lparr>cid = Some 1, cname = ''docs''\<rparr>] \<and>
   distinct (map cid [rootCrumb, \<lparr>cid = Some 1, cname = ''docs''\<rparr>])"
proof -
  have "findIndex (\<lambda>f. cid f = Some 1) [rootCrumb] = - 1"
    by (simp add: rootCrumb_def)
  then have "navigatePath (Some 1) ''docs'' [rootCrumb] = [rootCrumb, \<lparr>cid = Some 1, cname = ''docs''\<rparr>]"
    by (simp add: navigatePath_def updatePath_def)
  with navigated [OF initialPath, of "Some 1" "''docs''"]
  have r: "reachablePath [rootCrumb, \<lparr>cid = Some 1, cname = ''docs''\<rparr>]" by simp
  from r reachablePath_unique_ids [OF r] show ?thesis by blast
qed

section \<open>Ordering of the listing\<close>

lemma mset_insertBy: "mset (insertBy c x xs) = add_mset x (mset xs)"
  by (induction xs) simp_all

lemma mset_sortBy: "mset (sortBy c xs) = mset xs"
  by (induction xs) (simp_all add: mset_insertBy)

lemma set_insertBy: "set (insertBy c x xs) = insert x (set xs)"
  using mset_insertBy [of c x xs] by (metis set_mset_add_mset_insert set_mset_mset)

lemma sorted_insertBy:
  assumes total: "\<And>a b. c a b \<le> 0 \<or> c b a \<le> 0"
    and trans: "\<And>a b d. c a b \<le> 0 \<Longrightarrow> c b d \<le> 0 \<Longrightarrow> c a d \<le> 0"
  shows "sorted_wrt (\<lambda>a b. c a b \<le> 0) xs \<Longrightarrow> sorted_wrt (\<lambda>a b. c a b \<le> 0) (insertBy c x xs)"
proof (induction xs)
  case Nil
  show ?case by simp
next
  case (Cons y ys)
  show ?case
  proof (cases "c x y \<le> 0")
    case True
    have "\<forall>z \<in> set ys. c x z \<le> 0"
      using Cons.prems True trans by auto
    with True Cons.prems show ?thesis by simp
  next
    case False
    then have "c y x \<le> 0" using total [of x y] by simp
    with False Cons show ?thesis by (auto simp: set_insertBy)
  qed
qed

lemma sorted_sortBy:
  assumes total: "\<And>a b. c a b \<le> 0 \<or> c b a \<le> 0"
    and trans: "\<And>a b d. c a b \<le> 0 \<Longrightarrow> c b d \<le> 0 \<Longrightarrow> c a d \<le> 0"
  shows "sorted_wrt (\<lambda>a b. c a b \<le> 0) (sortBy c xs)"
proof (induction xs)
  case Nil
  show ?case by simp
next
  case (Cons x xs)
  then show ?case using sorted_insertBy [of c, OF total trans] by simp
qed

lemma consistent_total: "consistent c \<Longrightarrow> c a b \<le> 0 \<or> c b a \<le> 0"
  unfolding consistent_def by (metis not_le order_less_imp_le)

lemma consistent_trans: "consistent c \<Longrightarrow> c a b \<le> 0 \<Longrightarrow> c b d \<le> 0 \<Longrightarrow> c a d \<le> 0"
  unfolding consistent_def by blast

lemma compareItems_total:
  assumes "consistent lc"
  shows "compareItems lc a b \<le> 0 \<or> compareItems lc b a \<le> 0"
  using consistent_total [OF assms, of "iname a" "iname b"]
  by (cases "itype a"; cases "itype b") (simp_all add: compareItems_def)

lemma compareItems_trans:
  assumes "consistent lc" and "compareItems lc a b \<le> 0" and "compareItems lc b d \<le> 0"
  shows "compareItems lc a d \<le> 0"
  using assms(2,3) consistent_trans [OF assms(1), of "iname a" "iname b" "iname d"]
  by (cases "itype a"; cases "itype b"; cases "itype d") (simp_all add: compareItems_def)

lemma fetchItems_items:
  "items (fetchItems lc (Resolved (folderData, fileData) # rs) lo folderId s) =
     sortBy (compareItems lc) (fetchedFolders folderData @ fetchedFiles fileData)"
  by (simp add: send_def)

lemma compareItems_le_folder_first:
  "compareItems lc a b \<le> 0 \<Longrightarrow> \<not> (itype a = File \<and> itype b = Folder)"
  by (auto simp: compareItems_def)

lemma compareItems_le_name:
  "compareItems lc a b \<le> 0 \<Longrightarrow> itype a = itype b \<Longrightarrow> lc (iname a) (iname b) \<le> 0"
  by (cases "itype a") (auto simp: compareItems_def)

text \<open>
  Claim C3. When the two requests of a fetch succeed, the item list that \<^verbatim>\<open>fetchItems\<close>
  stores holds exactly the tagged folders and files of the responses, no file stands
  before a folder, and two items of the same type stand in ascending order of their
  names under \<^verbatim>\<open>localeCompare\<close>, a consistent comparison of strings.
\<close>

theorem fetchItems_sorted:
  assumes "consistent localeCompare"
  shows "mset (items (fetchItems localeCompare (Resolved (folderData, fileData) # rs) lo folderId s)) =
           mset (fetchedFolders folderData @ fetchedFiles fileData) \<and>
         sorted_wrt (\<lambda>a b. \<not> (itype a = File \<and> itype b = Folder))
           (items (fetchItems localeCompare (Resolved (folderData, fileData) # rs) lo folderId s)) \<and>
         sorted_wrt (\<lambda>a b. itype a = itype b \<longrightarrow> localeCompare (iname a) (iname b) \<le> 0)
           (items (fetchItems localeCompare (Resolved (folderData, fileData) # rs) lo folderId s))"
proof -
  let ?xs = "fetchedFolders folderData @ fetchedFiles fileData"
  let ?c = "compareItems localeCompare"
  have s: "sorted_wrt (\<lambda>a b. ?c a b \<le> 0) (sortBy ?c ?xs)"
  proof (rule sorted_sortBy)
    show "?c a b \<le> 0 \<or> ?c b a \<le> 0" for a b
      by (rule compareItems_total [OF assms])
    show "?c a b \<le> 0 \<Longrightarrow> ?c b d \<le> 0 \<Longrightarrow> ?c a d \<le> 0" for a b d
      by (rule compareItems_trans [OF assms])
  qed
  have a: "sorted_wrt (\<lambda>a b. \<not> (itype a = File \<and> itype b = Folder)) (sortBy ?c ?xs)"
    by (rule sorted_wrt_mono_rel [OF _ s]) (rule compareItems_le_folder_first)
  have b: "sorted_wrt (\<lambda>a b. itype a = itype b \<longrightarrow> localeCompare (iname a) (iname b) \<le> 0)
             (sortBy ?c ?xs)"
    by (rule sorted_wrt_mono_rel [OF _ s]) (auto intro: compareItems_le_name)
  show ?thesis
    unfolding fetchItems_items using a b by (simp add: mset_sortBy)
qed

lemma consistent_codeUnitCompare: "consistent codeUnitCompare"
  unfolding consistent_def codeUnitCompare_def by auto

theorem fetchItems_sorted_witness:
  "consistent codeUnitCompare \<and>
   map iname (items (fetchItems codeUnitCompare [Resolved (sampleFolders, sampleFiles)]
                 (Resolved ()) None initialState)) = [''docs'', ''music'', ''a.png'', ''notes.txt''] \<and>
   sorted_wrt (\<lambda>a b. \<not> (itype a = File \<and> itype b = Folder))
     (items (fetchItems codeUnitCompare [Resolved (sampleFolders, sampleFiles)]
                 (Resolved ()) None initialState))"
proof -
  have c: "consistent codeUnitCompare" by (rule consistent_codeUnitCompare)
  have n: "map iname (items (fetchItems codeUnitCompare [Resolved (sampleFolders, sampleFiles)]
                 (Resolved ()) None initialState)) = [''docs'', ''music'', ''a.png'', ''notes.txt'']"
    by (simp add: send_def sampleFolders_def sampleFiles_def tag_def compareItems_def
        codeUnitCompare_def less_char_def)
  from c n fetchItems_sorted [OF c, of sampleFolders sampleFiles "[]" "Resolved ()" None initialState]
  show ?thesis by blast
qed

section \<open>Session state\<close>

text \<open>
  Claim C4. Whether the logout request succeeds or fails, and with or without a toast,
  \<^verbatim>\<open>handleLogout\<close> leaves \<^verbatim>\<open>user\<close> at \<^verbatim>\<open>null\<close>.
\<close>

theorem handleLogout_clears_user: "user (handleLogout logoutReply showToast s) = None"
  by (simp add: handleLogout_def userCleanup_def Let_def)


lemma handleLogout_cleanup:
  "user s \<noteq> None \<Longrightarrow>
     items (handleLogout logoutReply showToast s) = [] \<and>
     breadcrumbPath (handleLogout logoutReply showToast s) = [rootCrumb] \<and>
     currentFolderId (handleLogout logoutReply showToast s) = None"
  by (cases logoutReply) (auto simp: handleLogout_def userCleanup_def Let_def send_def notify_def)






section \<open>The breadcrumb path and the open folder\<close>

lemma navigatePath_last:
  "navigatePath folderId n p \<noteq> [] \<and> cid (last (navigatePath folderId n p)) = folderId"
proof (cases "folderId = None")
  case True
  then show ?thesis by (simp add: navigatePath_def rootCrumb_def)
next
  case False
  show ?thesis
  proof (cases "folderId \<in> cid ` set p")
    case True
    then obtain k where "k < length p" "updatePath folderId n p = take (Suc k) p"
        "cid (p ! k) = folderId"
      using updatePath_found [of folderId p n] by blast
    with False show ?thesis
      by (auto simp: navigatePath_def last_take_Suc)
  next
    case notin: False
    with False show ?thesis by (auto simp: navigatePath_def updatePath_fresh)
  qed
qed

lemma pathInv_userCleanup: "pathInv (userCleanup s)"
  by (simp add: pathInv_def userCleanup_def rootCrumb_def)

lemma pathInv_handleLogout: "pathInv s \<Longrightarrow> pathInv (handleLogout lo b s)"
  by (cases lo)
    (auto simp: pathInv_def handleLogout_def userCleanup_def rootCrumb_def Let_def send_def notify_def)

lemma pathInv_fetch_navigate:
  "pathInv s \<longrightarrow> pathInv (fetchItems lc rs lo folderId s)"
  "pathInv (navigateToFolder lc rs lo folderId n s)"
proof (induction lc rs lo folderId s and lc rs lo folderId n s rule: fetchItems_navigateToFolder.induct)
  case (1 lc lo folderId s)
  show ?case by (simp add: pathInv_def send_def)
next
  case (2 lc r rs lo folderId s)
  show ?case
  proof (cases r)
    case (Resolved d)
    then show ?thesis by (cases d) (simp add: pathInv_def send_def)
  next
    case (Rejected err)
    let ?s1 = "send (GetFiles folderId) (send (GetFolders folderId) (s\<lparr>isLoading := True\<rparr>))"
    let ?s2 = "notify (ToastError ''Failed to fetch items.'') ?s1"
    let ?s3 = "if status err = Some 401
               then notify (ToastInfo ''Session expired. Please log in again.'')
                      (handleLogout lo False ?s2) else ?s2"
    show ?thesis
    proof
      assume inv: "pathInv s"
      then have "pathInv ?s2" by (simp add: pathInv_def send_def notify_def)
      then have i3: "pathInv ?s3"
        using pathInv_handleLogout [of ?s2 lo False] by (simp add: pathInv_def notify_def)
      show "pathInv (fetchItems lc (r # rs) lo folderId s)"
      proof (cases "status err = Some 404 \<and> folderId \<noteq> None")
        case True
        have "pathInv (navigateToFolder lc rs lo None ''Root''
                 (notify (ToastWarn ''Folder not found, returning to root.'') ?s3))"
          using "2.IH" [OF refl Rejected refl refl True] .
        then show ?thesis using Rejected True
          by (simp add: Let_def pathInv_def del: navigateToFolder.simps)
      next
        case False
        then show ?thesis using Rejected i3
          by (auto simp: Let_def pathInv_def)
      qed
    qed
  qed
next
  case (3 lc rs lo folderId n s)
  have "pathInv (s\<lparr>currentFolderId := folderId,
                   breadcrumbPath := navigatePath folderId n (breadcrumbPath s)\<rparr>)"
    using navigatePath_last [of folderId n "breadcrumbPath s"] by (simp add: pathInv_def)
  with 3 show ?case by simp
qed

lemma pathInv_fetchItems: "pathInv s \<Longrightarrow> pathInv (fetchItems lc rs lo folderId s)"
  using pathInv_fetch_navigate(1) by blast

lemma pathInv_updates [simp]:
  "pathInv (send r s) = pathInv s"
  "pathInv (notify t s) = pathInv s"
  "pathInv (cleanupFileInput s) = pathInv s"
  "pathInv (s\<lparr>isLoading := b\<rparr>) = pathInv s"
  "pathInv (s\<lparr>user := u\<rparr>) = pathInv s"
  "pathInv (s\<lparr>isAuthenticating := b\<rparr>) = pathInv s"
  "pathInv (s\<lparr>email := e\<rparr>) = pathInv s"
  "pathInv (s\<lparr>password := e\<rparr>) = pathInv s"
  "pathInv (s\<lparr>name := e\<rparr>) = pathInv s"
  "pathInv (s\<lparr>isLogin := b\<rparr>) = pathInv s"
  "pathInv (s\<lparr>fileToUpload := f\<rparr>) = pathInv s"
  "pathInv (s\<lparr>folderName := e\<rparr>) = pathInv s"
  "pathInv (s\<lparr>updateFileInputRef := i\<rparr>) = pathInv s"
  "pathInv (s\<lparr>fileToUpdateIdRef := j\<rparr>) = pathInv s"
  by (simp_all add: pathInv_def send_def notify_def cleanupFileInput_def)

lemma pathInv_initialState: "pathInv initialState"
  by (simp add: pathInv_def initialState_def rootCrumb_def)

lemma pathInv_userEffect: "pathInv s \<Longrightarrow> pathInv (userEffect lc rs lo s)"
  by (simp add: userEffect_def pathInv_fetchItems pathInv_userCleanup)

lemma pathInv_checkAuth: "pathInv s \<Longrightarrow> pathInv (checkAuth lc pr rs lo s)"
  by (cases pr) (simp_all add: checkAuth_def Let_def pathInv_userEffect)

lemma pathInv_handleAuth: "pathInv s \<Longrightarrow> pathInv (handleAuth lc ar rs lo s)"
  by (simp add: handleAuth_def Let_def pathInv_userEffect split: reply.splits option.splits)

lemma pathInv_handleFileUpload: "pathInv s \<Longrightarrow> pathInv (handleFileUpload ur s)"
  by (simp add: handleFileUpload_def Let_def split: reply.splits option.splits)

lemma pathInv_createFolder: "pathInv s \<Longrightarrow> pathInv (createFolder lc tr cr rs lo s)"
  by (simp add: createFolder_def Let_def pathInv_fetchItems split: reply.splits)

lemma pathInv_handleDelete: "pathInv s \<Longrightarrow> pathInv (handleDelete lc c dr rs lo it s)"
  by (simp add: handleDelete_def Let_def pathInv_fetchItems split: reply.splits)

lemma pathInv_triggerUpdateFile: "pathInv s \<Longrightarrow> pathInv (triggerUpdateFile fileId s)"
  by (simp add: triggerUpdateFile_def Let_def split: option.splits)

lemma pathInv_handleActualFileUpdate:
  "pathInv s \<Longrightarrow> pathInv (handleActualFileUpdate lc nf c pr rs lo s)"
  by (simp add: handleActualFileUpdate_def Let_def pathInv_fetchItems
      split: reply.splits option.splits)

text \<open>
  Claim C6. In every reachable state, whatever the events and the replies of the server
  were (navigation, logout, failed and successful fetches, mutations), the breadcrumb path
  is not empty and the id of its last entry is \<^verbatim>\<open>currentFolderId\<close>.
\<close>

theorem reachable_path_invariant:
  "reachable s \<Longrightarrow>
     breadcrumbPath s \<noteq> [] \<and> cid (last (breadcrumbPath s)) = currentFolderId s"
proof -
  assume "reachable s"
  then have "pathInv s"
  proof (induction rule: reachable.induct)
    case initial
    show ?case by (rule pathInv_initialState)
  next
    case (mounted lc pr rs lo)
    show ?case by (rule pathInv_checkAuth [OF pathInv_initialState])
  next
    case (navigatedTo s lc rs lo folderId n)
    show ?case by (rule pathInv_fetch_navigate(2))
  next
    case (edited s e p n l f d)
    then show ?case by simp
  qed (simp_all add: pathInv_handleAuth pathInv_handleLogout pathInv_fetchItems
        pathInv_handleFileUpload pathInv_createFolder pathInv_handleDelete
        pathInv_triggerUpdateFile pathInv_handleActualFileUpdate)
  then show ?thesis by (simp add: pathInv_def)
qed

theorem reachable_path_invariant_witness:
  "reachable (navigateToFolder codeUnitCompare [Resolved (JArray [], JArray [])] (Resolved ())
                (Some 5) ''work'' initialState) \<and>
   breadcrumbPath (navigateToFolder codeUnitCompare [Resolved (JArray [], JArray [])] (Resolved ())
                (Some 5) ''work'' initialState) = [rootCrumb, \<lparr>cid = Some 5, cname = ''work''\<rparr>] \<and>
   cid (last (breadcrumbPath (navigateToFolder codeUnitCompare [Resolved (JArray [], JArray [])]
                (Resolved ()) (Some 5) ''work'' initialState))) =
     currentFolderId (navigateToFolder codeUnitCompare [Resolved (JArray [], JArray [])]
                (Resolved ()) (Some 5) ''work'' initialState)"
proof -
  let ?s = "navigateToFolder codeUnitCompare [Resolved (JArray [], JArray [])] (Resolved ())
              (Some 5) ''work'' initialState"
  have r: "reachable ?s" by (rule navigatedTo [OF initial])
  have p: "breadcrumbPath ?s = [rootCrumb, \<lparr>cid = Some 5, cname = ''work''\<rparr>]"
    by (simp add: initialState_def send_def navigatePath_def updatePath_def rootCrumb_def)
  from r p reachable_path_invariant [OF r] show ?thesis by blast
qed

section \<open>Requests dispatched by the handlers\<close>

lemma requests_handleLogout: "prefix (requests s) (requests (handleLogout lo b s))"
  by (cases lo) (simp_all add: handleLogout_def userCleanup_def Let_def send_def notify_def)

lemma requests_fetch_navigate:
  "prefix (requests s) (requests (fetchItems lc rs lo folderId s))"
  "prefix (requests s) (requests (navigateToFolder lc rs lo folderId n s))"
proof (induction lc rs lo folderId s and lc rs lo folderId n s rule: fetchItems_navigateToFolder.induct)
  case (1 lc lo folderId s)
  show ?case by (simp add: send_def)
next
  case (2 lc r rs lo folderId s)
  show ?case
  proof (cases r)
    case (Resolved d)
    then show ?thesis by (cases d) (simp add: send_def)
  next
    case (Rejected err)
    let ?s1 = "send (GetFiles folderId) (send (GetFolders folderId) (s\<lparr>isLoading := True\<rparr>))"
    let ?s2 = "notify (ToastError ''Failed to fetch items.'') ?s1"
    let ?s3 = "if status err = Some 401
               then notify (ToastInfo ''Session expired. Please log in again.'')
                      (handleLogout lo False ?s2) else ?s2"
    have p2: "prefix (requests s) (requests ?s2)" by (simp add: send_def notify_def)
    have "prefix (requests ?s2) (requests ?s3)"
      using requests_handleLogout [of ?s2 lo False] by (simp add: notify_def)
    with p2 have p3: "prefix (requests s) (requests ?s3)" by (rule prefix_order.trans)
    show ?thesis
    proof (cases "status err = Some 404 \<and> folderId \<noteq> None")
      case True
      let ?s4 = "notify (ToastWarn ''Folder not found, returning to root.'') ?s3"
      have "prefix (requests ?s4) (requests (navigateToFolder lc rs lo None ''Root'' ?s4))"
        using "2.IH" [OF refl Rejected refl refl True] .
      moreover have "requests ?s4 = requests ?s3" by (simp add: notify_def)
      ultimately have "prefix (requests s) (requests (navigateToFolder lc rs lo None ''Root'' ?s4))"
        using p3 prefix_order.trans by fastforce
      then show ?thesis using Rejected True
        by (simp add: Let_def del: navigateToFolder.simps)
    next
      case False
      then have "status err \<noteq> Some 404 \<or> folderId = None" by simp
      then have "fetchItems lc (r # rs) lo folderId s = ?s3\<lparr>isLoading := False\<rparr>"
        using Rejected by (elim disjE) (simp_all add: Let_def)
      with p3 show ?thesis by simp
    qed
  qed
next
  case (3 lc rs lo folderId n s)
  then show ?case by simp
qed

lemma fetchItems_dispatches:
  "prefix (requests s @ [GetFolders folderId, GetFiles folderId])
     (requests (fetchItems lc rs lo folderId s))"
proof (cases rs)
  case Nil
  then show ?thesis by (simp add: send_def)
next
  case (Cons r rs')
  let ?s1 = "send (GetFiles folderId) (send (GetFolders folderId) (s\<lparr>isLoading := True\<rparr>))"
  have r1: "requests ?s1 = requests s @ [GetFolders folderId, GetFiles folderId]"
    by (simp add: send_def)
  show ?thesis
  proof (cases r)
    case (Resolved d)
    with Cons show ?thesis by (cases d) (simp add: send_def)
  next
    case (Rejected err)
    let ?s2 = "notify (ToastError ''Failed to fetch items.'') ?s1"
    let ?s3 = "if status err = Some 401
               then notify (ToastInfo ''Session expired. Please log in again.'')
                      (handleLogout lo False ?s2) else ?s2"
    have "prefix (requests ?s2) (requests ?s3)"
      using requests_handleLogout [of ?s2 lo False] by (simp add: notify_def)
    moreover have "requests ?s2 = requests ?s1" by (simp add: notify_def)
    ultimately have p3: "prefix (requests ?s1) (requests ?s3)" by simp
    show ?thesis
    proof (cases "status err = Some 404 \<and> folderId \<noteq> None")
      case True
      let ?s4 = "notify (ToastWarn ''Folder not found, returning to root.'') ?s3"
      have "prefix (requests ?s4) (requests (navigateToFolder lc rs' lo None ''Root'' ?s4))"
        by (rule requests_fetch_navigate(2))
      moreover have "requests ?s4 = requests ?s3" by (simp add: notify_def)
      ultimately have "prefix (requests ?s1) (requests (navigateToFolder lc rs' lo None ''Root'' ?s4))"
        using p3 prefix_order.trans by fastforce
      moreover have "fetchItems lc rs lo folderId s =
          (navigateToFolder lc rs' lo None ''Root'' ?s4)\<lparr>isLoading := False\<rparr>"
        using Cons Rejected True by (simp add: Let_def del: navigateToFolder.simps)
      ultimately show ?thesis unfolding r1 by simp
    next
      case False
      then have "status err \<noteq> Some 404 \<or> folderId = None" by simp
      then have "fetchItems lc rs lo folderId s = ?s3\<lparr>isLoading := False\<rparr>"
        using Cons Rejected by (elim disjE) (simp_all add: Let_def)
      with p3 show ?thesis unfolding r1 by simp
    qed
  qed
qed

text \<open>
  A folder created, an item deleted and a file replaced with success are followed by the
  two GET requests of a fetch: for the folder open when the handler started, and for a
  replaced file the folder that the handler of the hidden input closed over.
\<close>

lemma createFolder_refetches:
  assumes "trim (folderName s) \<noteq> []" and "\<not> isLoading s"
  shows "prefix (requests s @ [PostFolder (trim (folderName s)) (currentFolderId s),
                   GetFolders (currentFolderId s), GetFiles (currentFolderId s)])
           (requests (createFolder lc trim (Resolved u) rs lo s))"
proof -
  let ?t = "(notify (ToastSuccess (''Folder '' @ quoted (trim (folderName s)) @ '' created.''))
              (send (PostFolder (trim (folderName s)) (currentFolderId s))
                 (s\<lparr>isLoading := True\<rparr>)))\<lparr>folderName := []\<rparr>"
  have "createFolder lc trim (Resolved u) rs lo s = fetchItems lc rs lo (currentFolderId s) ?t"
    using assms by (simp add: createFolder_def Let_def)
  moreover have "requests ?t = requests s @ [PostFolder (trim (folderName s)) (currentFolderId s)]"
    by (simp add: send_def notify_def)
  ultimately show ?thesis
    using fetchItems_dispatches [of ?t "currentFolderId s" lc rs lo] by simp
qed

lemma handleDelete_refetches:
  assumes "\<not> isLoading s"
  shows "prefix (requests s @ [Delete (if itype it = Folder then Folders else Files) (iid it),
                   GetFolders (currentFolderId s), GetFiles (currentFolderId s)])
           (requests (handleDelete lc True (Resolved u) rs lo it s))"
proof -
  let ?d = "Delete (if itype it = Folder then Folders else Files) (iid it)"
  let ?t = "notify (ToastSuccess ((if itype it = Folder then ''Folder'' else ''File'') @ '' '' @
              quoted (iname it) @ '' deleted.'')) (send ?d (s\<lparr>isLoading := True\<rparr>))"
  have "handleDelete lc True (Resolved u) rs lo it s = fetchItems lc rs lo (currentFolderId s) ?t"
    using assms by (simp add: handleDelete_def Let_def)
  moreover have "requests ?t = requests s @ [?d]" by (simp add: send_def notify_def)
  ultimately show ?thesis
    using fetchItems_dispatches [of ?t "currentFolderId s" lc rs lo] by simp
qed

lemma handleActualFileUpdate_refetches:
  assumes "updateFileInputRef s = Some closedFolderId" and "fileToUpdateIdRef s = Some fileId"
    and "fileId \<noteq> 0"
  shows "prefix (requests s @ [PutFile fileId file, GetFolders closedFolderId, GetFiles closedFolderId])
           (requests (handleActualFileUpdate lc (Some file) True (Resolved msg) rs lo s))"
proof -
  let ?t = "notify (ToastSuccess (orElse msg ''File updated successfully!''))
              (send (PutFile fileId file) (s\<lparr>isLoading := True\<rparr>))"
  have "requests (handleActualFileUpdate lc (Some file) True (Resolved msg) rs lo s) =
          requests (fetchItems lc rs lo closedFolderId ?t)"
    using assms by (simp add: handleActualFileUpdate_def Let_def cleanupFileInput_def)
  moreover have "requests ?t = requests s @ [PutFile fileId file]" by (simp add: send_def notify_def)
  ultimately show ?thesis
    using fetchItems_dispatches [of ?t closedFolderId lc rs lo] by simp
qed

lemma handleFileUpload_requests:
  "requests (handleFileUpload uploadReply s) =
     requests s @ (case fileToUpload s of
                     None \<Rightarrow> []
                   | Some file \<Rightarrow> if isLoading s then [] else [PostUpload file (currentFolderId s)])"
  by (cases uploadReply; cases "fileToUpload s")
    (simp_all add: handleFileUpload_def Let_def send_def notify_def)

text \<open>
  Claim C1. The claim asks that every successful mutation fetches the open folder again.
  A successful upload does not: in the session at folder 5 with the file
  \<^verbatim>\<open>report.pdf\<close> selected, the handler dispatches the upload request and no GET
  request, shows the success toast and then the error toast of its own \<^verbatim>\<open>catch\<close>
  block, and leaves the listing as it was.
\<close>

theorem handleFileUpload_success_no_refetch:
  "handleFileUpload (Resolved ()) sampleState =
     sampleState\<lparr>fileToUpload := None,
       requests := [PostUpload ''report.pdf'' (Some 5)],
       toasts := [ToastSuccess ''File 'report.pdf' uploaded.'', ToastError ''File upload failed.'']\<rparr>"
  by (simp add: handleFileUpload_def sampleState_def initialState_def Let_def send_def notify_def
      quoted_def)

text \<open>
  Claim C7. When the user declines the confirmation, \<^verbatim>\<open>handleDelete\<close> returns the state
  as it was, requests included; the log of requests changes only after a confirmation;
  and after a confirmation in an idle state the DELETE request for the item is the next
  request dispatched.
\<close>

theorem handleDelete_confirmation:
  "(\<not> confirmed \<longrightarrow> handleDelete lc confirmed deleteReply rs lo it s = s) \<and>
   (requests (handleDelete lc confirmed deleteReply rs lo it s) \<noteq> requests s \<longrightarrow> confirmed) \<and>
   (confirmed \<and> \<not> isLoading s \<longrightarrow>
      prefix (requests s @ [Delete (if itype it = Folder then Folders else Files) (iid it)])
        (requests (handleDelete lc confirmed deleteReply rs lo it s)))"
proof (intro conjI impI)
  assume "\<not> confirmed"
  then show "handleDelete lc confirmed deleteReply rs lo it s = s"
    by (simp add: handleDelete_def)
next
  assume "requests (handleDelete lc confirmed deleteReply rs lo it s) \<noteq> requests s"
  show confirmed
  proof (rule ccontr)
    assume "\<not> confirmed"
    then have "handleDelete lc confirmed deleteReply rs lo it s = s"
      by (simp add: handleDelete_def)
    with \<open>requests (handleDelete lc confirmed deleteReply rs lo it s) \<noteq> requests s\<close>
    show False by simp
  qed
next
  assume a: "confirmed \<and> \<not> isLoading s"
  let ?d = "Delete (if itype it = Folder then Folders else Files) (iid it)"
  show "prefix (requests s @ [?d]) (requests (handleDelete lc confirmed deleteReply rs lo it s))"
  proof (cases deleteReply)
    case (Resolved u)
    let ?t = "notify (ToastSuccess ((if itype it = Folder then ''Folder'' else ''File'') @ '' '' @
                quoted (iname it) @ '' deleted.'')) (send ?d (s\<lparr>isLoading := True\<rparr>))"
    have "prefix (requests ?t) (requests (fetchItems lc rs lo (currentFolderId s) ?t))"
      by (rule requests_fetch_navigate(1))
    moreover have "requests ?t = requests s @ [?d]" by (simp add: send_def notify_def)
    ultimately show ?thesis using a Resolved by (simp add: handleDelete_def Let_def)
  next
    case (Rejected err)
    with a show ?thesis by (simp add: handleDelete_def Let_def send_def notify_def)
  qed
qed

theorem handleDelete_confirmation_witness:
  "handleDelete codeUnitCompare False (Resolved ()) [] (Resolved ()) sampleItem sampleState = sampleState \<and>
   prefix (requests sampleState @ [Delete Files 3])
     (requests (handleDelete codeUnitCompare True (Resolved ()) [] (Resolved ()) sampleItem sampleState))"
proof -
  have idle: "True \<and> \<not> isLoading sampleState"
    by (simp add: sampleState_def initialState_def)
  have f: "(if itype sampleItem = Folder then Folders else Files) = Files" "iid sampleItem = 3"
    by (simp_all add: sampleItem_def)
  from handleDelete_confirmation [of False codeUnitCompare "Resolved ()" "[]" "Resolved ()" sampleItem sampleState]
  have a: "handleDelete codeUnitCompare False (Resolved ()) [] (Resolved ()) sampleItem sampleState = sampleState"
    by blast
  from handleDelete_confirmation [of True codeUnitCompare "Resolved ()" "[]" "Resolved ()" sampleItem sampleState]
    idle
  have "prefix (requests sampleState @ [Delete (if itype sampleItem = Folder then Folders else Files) (iid sampleItem)])
     (requests (handleDelete codeUnitCompare True (Resolved ()) [] (Resolved ()) sampleItem sampleState))"
    by blast
  with a f show ?thesis by simp
qed

section \<open>A folder that is not found\<close>

lemma fetchRoot_frame:
  assumes "currentFolderId t = None" and "breadcrumbPath t = [rootCrumb]"
  shows "currentFolderId (fetchItems lc rs lo None t) = None \<and>
         breadcrumbPath (fetchItems lc rs lo None t) = [rootCrumb] \<and>
         prefix (toasts t) (toasts (fetchItems lc rs lo None t))"
proof (cases rs)
  case Nil
  with assms show ?thesis by (simp add: send_def)
next
  case (Cons r rs')
  show ?thesis
  proof (cases r)
    case (Resolved d)
    with Cons assms show ?thesis by (cases d) (simp add: send_def)
  next
    case (Rejected err)
    with Cons assms show ?thesis
      by (cases lo)
        (auto simp: Let_def send_def notify_def handleLogout_def userCleanup_def)
  qed
qed

text \<open>
  Claim C8. As amended: a fetch of a folder other than the root that fails with status
  404 ends at the root (\<^verbatim>\<open>currentFolderId\<close> is \<^verbatim>\<open>null\<close>, the path is the root entry);
  the toasts it adds start with the error and the warning, and the requests it adds are
  the two of the failed fetch and then the two of the fetch of the root. Every fetch of
  the root that fails with status 404 adds its two requests and the error toast, ends
  the loading and changes nothing else: no warning, no navigation, no further request.
\<close>

theorem fetchItems_not_found:
  assumes "status err = Some 404"
  shows "(folderId \<noteq> None \<longrightarrow>
           currentFolderId (fetchItems lc (Rejected err # rs) lo folderId s) = None \<and>
           breadcrumbPath (fetchItems lc (Rejected err # rs) lo folderId s) = [rootCrumb] \<and>
           prefix (toasts s @ [ToastError ''Failed to fetch items.'',
                               ToastWarn ''Folder not found, returning to root.''])
             (toasts (fetchItems lc (Rejected err # rs) lo folderId s)) \<and>
           prefix (requests s @ [GetFolders folderId, GetFiles folderId,
                                 GetFolders None, GetFiles None])
             (requests (fetchItems lc (Rejected err # rs) lo folderId s))) \<and>
         fetchItems lc (Rejected err # rs) lo None s =
           s\<lparr>isLoading := False,
             requests := requests s @ [GetFolders None, GetFiles None],
             toasts := toasts s @ [ToastError ''Failed to fetch items.'']\<rparr>"
proof (intro conjI impI)
  assume nonroot: "folderId \<noteq> None"
  let ?s2 = "notify (ToastError ''Failed to fetch items.'')
               (send (GetFiles folderId) (send (GetFolders folderId) (s\<lparr>isLoading := True\<rparr>)))"
  let ?t = "(notify (ToastWarn ''Folder not found, returning to root.'') ?s2)
              \<lparr>currentFolderId := None, breadcrumbPath := [rootCrumb]\<rparr>"
  have eq: "fetchItems lc (Rejected err # rs) lo folderId s =
              (fetchItems lc rs lo None ?t)\<lparr>isLoading := False\<rparr>"
    using assms nonroot by (simp add: Let_def navigatePath_def)
  have w: "toasts ?t = toasts s @ [ToastError ''Failed to fetch items.'',
                                   ToastWarn ''Folder not found, returning to root.'']"
    by (simp add: notify_def send_def)
  have q: "requests ?t = requests s @ [GetFolders folderId, GetFiles folderId]"
    by (simp add: notify_def send_def)
  have "currentFolderId ?t = None" "breadcrumbPath ?t = [rootCrumb]" by simp_all
  from fetchRoot_frame [OF this, of lc rs lo] fetchItems_dispatches [of ?t None lc rs lo]
  have all: "currentFolderId (fetchItems lc (Rejected err # rs) lo folderId s) = None \<and>
           breadcrumbPath (fetchItems lc (Rejected err # rs) lo folderId s) = [rootCrumb] \<and>
           prefix (toasts s @ [ToastError ''Failed to fetch items.'',
                               ToastWarn ''Folder not found, returning to root.''])
             (toasts (fetchItems lc (Rejected err # rs) lo folderId s)) \<and>
           prefix (requests s @ [GetFolders folderId, GetFiles folderId,
                                 GetFolders None, GetFiles None])
             (requests (fetchItems lc (Rejected err # rs) lo folderId s))"
    unfolding eq w q by simp
  from all show "currentFolderId (fetchItems lc (Rejected err # rs) lo folderId s) = None" by blast
  from all show "breadcrumbPath (fetchItems lc (Rejected err # rs) lo folderId s) = [rootCrumb]" by blast
  from all show "prefix (toasts s @ [ToastError ''Failed to fetch items.'',
                               ToastWarn ''Folder not found, returning to root.''])
             (toasts (fetchItems lc (Rejected err # rs) lo folderId s))" by blast
  from all show "prefix (requests s @ [GetFolders folderId, GetFiles folderId,
                                 GetFolders None, GetFiles None])
             (requests (fetchItems lc (Rejected err # rs) lo folderId s))" by blast
next
  show "fetchItems lc (Rejected err # rs) lo None s =
           s\<lparr>isLoading := False,
             requests := requests s @ [GetFolders None, GetFiles None],
             toasts := toasts s @ [ToastError ''Failed to fetch items.'']\<rparr>"
    using assms by (simp add: Let_def send_def notify_def)
qed

theorem fetchItems_not_found_witness:
  "status notFound = Some 404 \<and>
   currentFolderId sampleState = Some 5 \<and>
   currentFolderId (fetchItems codeUnitCompare [Rejected notFound] (Resolved ()) (Some 5) sampleState) = None \<and>
   breadcrumbPath (fetchItems codeUnitCompare [Rejected notFound] (Resolved ()) (Some 5) sampleState)
     = [rootCrumb] \<and>
   prefix (toasts sampleState @ [ToastError ''Failed to fetch items.'',
                                 ToastWarn ''Folder not found, returning to root.''])
     (toasts (fetchItems codeUnitCompare [Rejected notFound] (Resolved ()) (Some 5) sampleState)) \<and>
   toasts (fetchItems codeUnitCompare [Rejected notFound] (Resolved ()) None sampleState)
     = [ToastError ''Failed to fetch items.'']"
proof -
  have h1: "status notFound = Some 404" by (simp add: notFound_def)
  have h2: "Some 5 \<noteq> (None :: folder_id)" by simp
  have c: "currentFolderId sampleState = Some 5" by (simp add: sampleState_def)
  have t: "toasts sampleState = []" by (simp add: sampleState_def initialState_def)
  from fetchItems_not_found [OF h1, of "Some 5" codeUnitCompare "[]" "Resolved ()" sampleState] h2
  have a: "currentFolderId (fetchItems codeUnitCompare [Rejected notFound] (Resolved ()) (Some 5) sampleState) = None \<and>
   breadcrumbPath (fetchItems codeUnitCompare [Rejected notFound] (Resolved ()) (Some 5) sampleState)
     = [rootCrumb] \<and>
   prefix (toasts sampleState @ [ToastError ''Failed to fetch items.'',
                                 ToastWarn ''Folder not found, returning to root.''])
     (toasts (fetchItems codeUnitCompare [Rejected notFound] (Resolved ()) (Some 5) sampleState))"
    by blast
  from fetchItems_not_found [OF h1, of "Some 5" codeUnitCompare "[]" "Resolved ()" sampleState]
  have "fetchItems codeUnitCompare [Rejected notFound] (Resolved ()) None sampleState =
           sampleState\<lparr>isLoading := False,
             requests := requests sampleState @ [GetFolders None, GetFiles None],
             toasts := toasts sampleState @ [ToastError ''Failed to fetch items.'']\<rparr>"
    by blast
  then have b: "toasts (fetchItems codeUnitCompare [Rejected notFound] (Resolved ()) None sampleState)
     = [ToastError ''Failed to fetch items.'']" by (simp add: t)
  from h1 c a b show ?thesis by blast
qed

text \<open>
  The claim as stated fails for the root: its fetch failing with status 404 shows the
  error toast only, no warning, and dispatches nothing further, also when the server
  would answer a further fetch.
\<close>

theorem fetchItems_not_found_root_counterexample:
  "status notFound = Some 404 \<and>
   toasts (fetchItems codeUnitCompare [Rejected notFound, Resolved (sampleFolders, sampleFiles)]
             (Resolved ()) None
             (sampleState\<lparr>currentFolderId := None, breadcrumbPath := [rootCrumb]\<rparr>))
     = [ToastError ''Failed to fetch items.''] \<and>
   requests (fetchItems codeUnitCompare [Rejected notFound, Resolved (sampleFolders, sampleFiles)]
             (Resolved ()) None
             (sampleState\<lparr>currentFolderId := None, breadcrumbPath := [rootCrumb]\<rparr>))
     = [GetFolders None, GetFiles None] \<and>
   ToastWarn ''Folder not found, returning to root.''
     \<notin> set (toasts (fetchItems codeUnitCompare
                       [Rejected notFound, Resolved (sampleFolders, sampleFiles)]
                       (Resolved ()) None
                       (sampleState\<lparr>currentFolderId := None, breadcrumbPath := [rootCrumb]\<rparr>)))"
  by (simp add: notFound_def sampleState_def initialState_def Let_def send_def notify_def)

section \<open>The path after a navigation\<close>







section \<open>Units of formatBytes\<close>












end
